theory Spec2Isabelle
  imports Main "HOL-Library.Sublist" "HOL-Library.AList"
begin

section \<open>Python values used by the scraper\<close>

text \<open>
  The scraper is a Python script that drives a browser session.  Strings are modelled
  as \<open>string\<close> over ASCII characters; integers are Python's unbounded integers,
  \<open>int\<close>.  Every exception of the script is a value of \<open>exn\<close>; all of them are
  subclasses of Python's \<open>Exception\<close>.  \<open>TimeoutException\<close>,
  \<open>NoSuchElementException\<close> and \<open>WebDriverException\<close> come from the browser
  driver, the others from Python's built-in operations.
\<close>

datatype exn =
    TimeoutException
  | NoSuchElementException
  | WebDriverException
  | TypeError
  | ValueError
  | IndexError

subsection \<open>String operations\<close>

text \<open>\<open>sub in s\<close>: the substring test.\<close>

fun py_in :: "string \<Rightarrow> string \<Rightarrow> bool" where
  "py_in sub [] = (sub = [])"
| "py_in sub (c # cs) = (prefix sub (c # cs) \<or> py_in sub cs)"

text \<open>
  \<open>s.split(sep)\<close> for a non-empty separator: the pieces between the non-overlapping
  occurrences of \<open>sep\<close>, found from left to right.  (Python raises on an empty
  separator; the script only uses literal, non-empty separators, and the model returns
  the characters of \<open>s\<close> unsplit in that case.)
\<close>

function py_split :: "string \<Rightarrow> string \<Rightarrow> string list" where
  "py_split sep [] = [[]]"
| "py_split sep (c # cs) =
     (if sep \<noteq> [] \<and> prefix sep (c # cs)
      then [] # py_split sep (drop (length sep) (c # cs))
      else (case py_split sep cs of
              [] \<Rightarrow> [[c]]
            | p # ps \<Rightarrow> (c # p) # ps))"
  by pat_completeness auto
termination
  by (relation "measure (\<lambda>(sep, s). length s)") (auto simp: neq_Nil_conv)

text \<open>\<open>xs[i]\<close> for a non-negative literal index: IndexError when out of range.\<close>

definition py_index :: "'a list \<Rightarrow> nat \<Rightarrow> exn + 'a" where
  "py_index xs i = (if i < length xs then Inr (xs ! i) else Inl IndexError)"

definition is_digit :: "char \<Rightarrow> bool" where
  "is_digit c = (c \<in> set ''0123456789'')"

text \<open>\<open>s.isdigit()\<close>: non-empty and every character a digit.\<close>

definition py_isdigit :: "string \<Rightarrow> bool" where
  "py_isdigit s = (s \<noteq> [] \<and> list_all is_digit s)"

definition digit_val :: "char \<Rightarrow> int" where
  "digit_val c = int (of_char c) - 48"

definition digits_val :: "string \<Rightarrow> int" where
  "digits_val s = foldl (\<lambda>n c. 10 * n + digit_val c) 0 s"

text \<open>Python's whitespace characters in the ASCII range.\<close>

definition is_space :: "char \<Rightarrow> bool" where
  "is_space c = (let n = (of_char c :: nat) in (9 \<le> n \<and> n \<le> 13) \<or> (28 \<le> n \<and> n \<le> 32))"

text \<open>\<open>s.strip()\<close>.\<close>

definition py_strip :: "string \<Rightarrow> string" where
  "py_strip s = rev (dropWhile is_space (rev (dropWhile is_space s)))"

text \<open>\<open>s.split()\<close>: the maximal runs of non-whitespace characters.\<close>

fun py_words_aux :: "string \<Rightarrow> string \<Rightarrow> string list" where
  "py_words_aux cur [] = (if cur = [] then [] else [rev cur])"
| "py_words_aux cur (c # cs) =
     (if is_space c
      then (if cur = [] then py_words_aux [] cs else rev cur # py_words_aux [] cs)
      else py_words_aux (c # cur) cs)"

definition py_words :: "string \<Rightarrow> string list" where
  "py_words s = py_words_aux [] s"

definition lower_char :: "char \<Rightarrow> char" where
  "lower_char c =
     (case map_of (zip ''ABCDEFGHIJKLMNOPQRSTUVWXYZ'' ''abcdefghijklmnopqrstuvwxyz'') c of
        None \<Rightarrow> c
      | Some l \<Rightarrow> l)"

text \<open>\<open>s.lower()\<close>.\<close>

definition py_lower :: "string \<Rightarrow> string" where
  "py_lower s = map lower_char s"

text \<open>\<open>s.replace(",", "")\<close>.\<close>

definition remove_commas :: "string \<Rightarrow> string" where
  "remove_commas s = filter (\<lambda>c. c \<noteq> CHR '','') s"

text \<open>
  \<open>int(s)\<close> on a string.  The whitespace that \<open>int\<close> ignores around the number is
  that of C (tab to carriage return, and the space), a smaller set than the one
  \<open>strip\<close> removes.  One sign is allowed, and the digits may be grouped by single
  underscores.  A number of more than 4300 digits is refused (the interpreter's limit
  on the conversion of decimal strings); signs, underscores and whitespace do not
  count.  Every refusal is a ValueError.
\<close>

definition is_c_space :: "char \<Rightarrow> bool" where
  "is_c_space c = (let n = (of_char c :: nat) in (9 \<le> n \<and> n \<le> 13) \<or> n = 32)"

definition int_strip :: "string \<Rightarrow> string" where
  "int_strip s = rev (dropWhile is_c_space (rev (dropWhile is_c_space s)))"

definition int_max_str_digits :: nat where
  "int_max_str_digits = 4300"

definition py_int :: "string \<Rightarrow> exn + int" where
  "py_int s =
     (let t = int_strip s;
          (sgn, body) = (case t of
                           [] \<Rightarrow> (1, [])
                         | c # r \<Rightarrow> if c = CHR ''-'' then (- 1, r)
                                    else if c = CHR ''+'' then (1, r)
                                    else (1, t));
          digits = filter (\<lambda>c. c \<noteq> CHR ''_'') body
      in if list_all py_isdigit (py_split ''_'' body)
         then (if int_max_str_digits < length digits then Inl ValueError
               else Inr (sgn * digits_val digits))
         else Inl ValueError)"

text \<open>\<open>sep.join(xs)\<close>.\<close>

fun py_join :: "string \<Rightarrow> string list \<Rightarrow> string" where
  "py_join sep [] = []"
| "py_join sep [x] = x"
| "py_join sep (x # y # ys) = x @ sep @ py_join sep (y # ys)"

section \<open>Identifier discovery\<close>

text \<open>
  A listing page, as the discovery loop sees it: either loading the page or waiting for
  its ready state raises, or the page gives the \<open>href\<close> attribute of each candidate link
  in document order (\<open>None\<close> when the element has no such attribute).  The listing source
  maps the page number to that outcome.
\<close>

type_synonym listing_page = "exn + string option list"
type_synonym listing_source = "nat \<Rightarrow> listing_page"

text \<open>
  What one link contributes (lines 163 to 166 of the script): an exception, nothing
  (\<open>Inr None\<close>: the link is skipped), or the identifier read from its address.
\<close>

definition link_book_id :: "string option \<Rightarrow> exn + int option" where
  "link_book_id href =
     (case href of
        None \<Rightarrow> Inl TypeError
      | Some h \<Rightarrow>
          if py_in ''/book/show/'' h then
            (case py_index (py_split ''/book/show/'' h) 1 of
               Inl e \<Rightarrow> Inl e
             | Inr rest \<Rightarrow>
                 (case py_index (py_split ''.'' rest) 0 of
                    Inl e \<Rightarrow> Inl e
                  | Inr book_id_part \<Rightarrow>
                      if py_isdigit book_id_part
                      then (case py_int book_id_part of
                              Inl e \<Rightarrow> Inl e
                            | Inr n \<Rightarrow> Inr (Some n))
                      else Inr None))
          else Inr None)"

text \<open>
  The \<open>for link in links\<close> loop with its \<open>break\<close>: the result is the updated
  \<open>book_ids\<close>, or the exception that left the loop.
\<close>

fun scan_links :: "int \<Rightarrow> string option list \<Rightarrow> int list \<Rightarrow> exn + int list" where
  "scan_links max_books [] book_ids = Inr book_ids"
| "scan_links max_books (href # links) book_ids =
     (case link_book_id href of
        Inl e \<Rightarrow> Inl e
      | Inr None \<Rightarrow> scan_links max_books links book_ids
      | Inr (Some n) \<Rightarrow>
          if n \<notin> set book_ids then
            (let book_ids' = book_ids @ [n]
             in if max_books \<le> int (length book_ids') then Inr book_ids'
                else scan_links max_books links book_ids')
          else scan_links max_books links book_ids)"

text \<open>
  The \<open>while len(book_ids) < max_books\<close> loop.  It has no bound on the page number, so
  it is a partial function: \<open>None\<close> is a run that never leaves the loop.
\<close>

partial_function (option) discover_loop ::
  "listing_source \<Rightarrow> int \<Rightarrow> int list \<Rightarrow> nat \<Rightarrow> (exn + int list) option" where
  "discover_loop src max_books book_ids page =
     (if int (length book_ids) < max_books then
        (case src page of
           Inl e \<Rightarrow> Some (Inl e)
         | Inr links \<Rightarrow>
             (case scan_links max_books links book_ids of
                Inl e \<Rightarrow> Some (Inl e)
              | Inr book_ids' \<Rightarrow> discover_loop src max_books book_ids' (page + 1)))
      else Some (Inr book_ids))"

definition get_top_goodreads_book_ids :: "listing_source \<Rightarrow> int \<Rightarrow> (exn + int list) option" where
  "get_top_goodreads_book_ids src max_books = discover_loop src max_books [] 1"

section \<open>Detail extraction\<close>

text \<open>
  A detail page, as the extraction sees it once the driver has been sent to the book's
  address: for each driver call of the script, either the exception it raises or the
  text it finds.  \<open>dp_get\<close> is \<open>driver.get(url)\<close>, \<open>dp_title_wait\<close> the wait for the
  title element, \<open>dp_scroll\<close> the scroll script, \<open>dp_ready_wait\<close> the wait for the
  ready state, \<open>dp_show_more\<close> the wait for and click on the "show more" control.  The
  remaining fields are the element queries: the texts of the genre elements, of the title
  element, of the author elements, of the rating element, of the rating-metadata element
  and of the paragraph elements.
\<close>

record detail_page =
  dp_get :: "exn option"
  dp_title_wait :: "exn option"
  dp_scroll :: "exn option"
  dp_ready_wait :: "exn option"
  dp_show_more :: "exn option"
  dp_genres :: "exn + string list"
  dp_title :: "exn + string"
  dp_authors :: "exn + string list"
  dp_rating :: "exn + string"
  dp_rating_meta :: "exn + string"
  dp_p_tags :: "exn + string list"

text \<open>
  \<open>safe_get_text\<close> with \<open>attr = "text"\<close>, the only way the script calls it, on the
  outcome of the element query: with \<open>multiple=True\<close> the stripped texts that are not
  empty, otherwise the stripped text of the one element.
\<close>

definition safe_get_text_multiple :: "exn + string list \<Rightarrow> exn + string list" where
  "safe_get_text_multiple elements =
     (case elements of
        Inl e \<Rightarrow> Inl e
      | Inr texts \<Rightarrow> Inr (filter (\<lambda>t. t \<noteq> []) (map py_strip texts)))"

definition safe_get_text :: "exn + string \<Rightarrow> exn + string" where
  "safe_get_text element =
     (case element of
        Inl e \<Rightarrow> Inl e
      | Inr t \<Rightarrow> Inr (py_strip t))"

text \<open>
  \<open>wait_scroll_and_expand\<close>: the two waits and the scroll raise to the caller; whatever
  the "show more" step raises is caught (and logged) inside.
\<close>

definition wait_scroll_and_expand :: "detail_page \<Rightarrow> exn + unit" where
  "wait_scroll_and_expand pg =
     (case dp_title_wait pg of
        Some e \<Rightarrow> Inl e
      | None \<Rightarrow>
          (case dp_scroll pg of
             Some e \<Rightarrow> Inl e
           | None \<Rightarrow>
               (case dp_ready_wait pg of
                  Some e \<Rightarrow> Inl e
                | None \<Rightarrow>
                    (case dp_show_more pg of
                       Some e \<Rightarrow> Inr ()
                     | None \<Rightarrow> Inr ()))))"

text \<open>
  The scan of the paragraph elements (lines 122 to 128): the first paragraph whose
  stripped, lower-cased text contains \<open>pages\<close> decides; its first word is given to
  \<open>int\<close>.
\<close>

fun find_pages :: "string list \<Rightarrow> exn + int option" where
  "find_pages [] = Inr None"
| "find_pages (p # p_tags) =
     (let text = py_lower (py_strip p)
      in if py_in ''pages'' text then
           (case py_index (py_words text) 0 of
              Inl e \<Rightarrow> Inl e
            | Inr w \<Rightarrow>
                (case py_int w of
                   Inl e \<Rightarrow> Inl e
                 | Inr n \<Rightarrow> Inr (Some n)))
         else find_pages p_tags)"

text \<open>
  The values stored in the result dictionary.  Floating-point numbers are not modelled:
  the type \<open>'f\<close> of ratings and the conversion \<open>float(s)\<close>, here \<open>py_float\<close>, are
  parameters.  A dictionary is a list of key-value pairs in insertion order.
\<close>

datatype 'f pyval = PStr string | PInt int | PFloat 'f | PNone | PList "string list"

type_synonym 'f book_dict = "(string \<times> 'f pyval) list"

definition pages_val :: "int option \<Rightarrow> 'f pyval" where
  "pages_val pages = (case pages of None \<Rightarrow> PNone | Some n \<Rightarrow> PInt n)"

text \<open>The body of the \<open>try\<close> block of \<open>get_goodreads_book_data\<close>.\<close>

definition extract_fields :: "(string \<Rightarrow> exn + 'f) \<Rightarrow> detail_page \<Rightarrow> exn + 'f book_dict" where
  "extract_fields py_float pg =
     (case dp_get pg of Some e \<Rightarrow> Inl e | None \<Rightarrow>
      (case wait_scroll_and_expand pg of Inl e \<Rightarrow> Inl e | Inr u \<Rightarrow>
      (case safe_get_text_multiple (dp_genres pg) of Inl e \<Rightarrow> Inl e | Inr genres \<Rightarrow>
      (case safe_get_text (dp_title pg) of Inl e \<Rightarrow> Inl e | Inr title \<Rightarrow>
      (case safe_get_text_multiple (dp_authors pg) of Inl e \<Rightarrow> Inl e | Inr authors \<Rightarrow>
      (let author = py_join '', '' authors in
      (case safe_get_text (dp_rating pg) of Inl e \<Rightarrow> Inl e | Inr rating_str \<Rightarrow>
      (case py_float rating_str of Inl e \<Rightarrow> Inl e | Inr rating \<Rightarrow>
      (case safe_get_text (dp_rating_meta pg) of Inl e \<Rightarrow> Inl e | Inr rating_text \<Rightarrow>
      (case py_index (py_split ''ratings'' rating_text) 0 of Inl e \<Rightarrow> Inl e | Inr count_str \<Rightarrow>
      (case py_int (remove_commas (py_strip count_str)) of Inl e \<Rightarrow> Inl e | Inr ratings_count \<Rightarrow>
      (case dp_p_tags pg of Inl e \<Rightarrow> Inl e | Inr p_tags \<Rightarrow>
      (case find_pages p_tags of Inl e \<Rightarrow> Inl e | Inr pages \<Rightarrow>
         Inr [(''title'', PStr title),
              (''author'', PStr author),
              (''rating'', PFloat rating),
              (''genres'', PList genres),
              (''pages'', pages_val pages),
              (''ratings_count'', PInt ratings_count)])))))))))))))"

text \<open>
  \<open>get_goodreads_book_data\<close>: the \<open>try\<close> block with its two handlers, the first for
  \<open>TimeoutException\<close>, the second for every other \<open>Exception\<close>; both log a warning
  and return the empty dictionary.
\<close>

definition get_goodreads_book_data ::
  "(string \<Rightarrow> exn + 'f) \<Rightarrow> detail_page \<Rightarrow> exn + 'f book_dict" where
  "get_goodreads_book_data py_float pg =
     (case extract_fields py_float pg of
        Inr info \<Rightarrow> Inr info
      | Inl e \<Rightarrow> (if e = TimeoutException then Inr [] else Inr []))"

section \<open>The pipeline run\<close>

text \<open>
  What a run does to the output file and to the browser session, in order: the header
  row, one data row, a flush of the file, the release of the session
  (\<open>driver.quit()\<close>), and the closing of the file when the \<open>with\<close> block is left.
\<close>

datatype 'f event = Header "string list" | InitDriver | Row "'f pyval list" | Flush | Quit | Close

text \<open>
  \<open>info.get(key)\<close> and the flattening of a genre list into one string (lines 198 and
  199).
\<close>

definition dict_get :: "'f book_dict \<Rightarrow> string \<Rightarrow> 'f pyval" where
  "dict_get info key = (case map_of info key of None \<Rightarrow> PNone | Some v \<Rightarrow> v)"

definition flatten_genres :: "'f book_dict \<Rightarrow> 'f book_dict" where
  "flatten_genres info =
     (case dict_get info ''genres'' of
        PList gs \<Rightarrow> AList.update ''genres'' (PStr (py_join '', '' gs)) info
      | _ \<Rightarrow> info)"

text \<open>
  \<open>csv.DictWriter.writerow\<close> with the default settings: a key of the dictionary that
  is not a field name is a ValueError; a field name that is not a key gives the empty
  string.
\<close>

definition writerow :: "string list \<Rightarrow> 'f book_dict \<Rightarrow> exn + 'f pyval list" where
  "writerow fieldnames info =
     (if list_all (\<lambda>k. k \<in> set fieldnames) (map fst info)
      then Inr (map (\<lambda>k. case map_of info k of None \<Rightarrow> PStr [] | Some v \<Rightarrow> v) fieldnames)
      else Inl ValueError)"

text \<open>
  The body of the \<open>for i, book_id in enumerate(ids, 1)\<close> loop of \<open>main\<close> up to
  \<open>writer.writerow(info)\<close>: the extraction, the flattening of the genres and the row
  that is written, or the exception that leaves the loop.
\<close>

definition book_row ::
  "(string \<Rightarrow> exn + 'f) \<Rightarrow> string list \<Rightarrow> detail_page \<Rightarrow> exn + 'f pyval list" where
  "book_row py_float fieldnames pg =
     (case get_goodreads_book_data py_float pg of
        Inl e \<Rightarrow> Inl e
      | Inr info \<Rightarrow> writerow fieldnames (flatten_genres info))"

text \<open>
  The loop itself.  \<open>site book_id\<close> is the detail page found at the address built for
  \<open>book_id\<close>.  The result is the events of the loop and the exception that left it, if
  any.
\<close>

fun process_books ::
  "(string \<Rightarrow> exn + 'f) \<Rightarrow> string list \<Rightarrow> (int \<Rightarrow> detail_page) \<Rightarrow> int list
     \<Rightarrow> 'f event list \<times> exn option" where
  "process_books py_float fieldnames site [] = ([], None)"
| "process_books py_float fieldnames site (book_id # ids) =
     (case book_row py_float fieldnames (site book_id) of
        Inl e \<Rightarrow> ([], Some e)
      | Inr row \<Rightarrow>
          (case process_books py_float fieldnames site ids of
             (evs, r) \<Rightarrow> (Row row # Flush # evs, r)))"

text \<open>
  \<open>main\<close>: the file is opened in a \<open>with\<close> block, so it is closed on every way out;
  \<open>driver.quit()\<close> is the last statement of the block.  Creating the output
  directory, opening the file, writing to it and starting the browser are taken to
  succeed.  \<open>None\<close> is a run whose discovery never returns.
\<close>

definition main ::
  "(string \<Rightarrow> exn + 'f) \<Rightarrow> string list \<Rightarrow> listing_source \<Rightarrow> (int \<Rightarrow> detail_page)
     \<Rightarrow> ('f event list \<times> exn option) option" where
  "main py_float fieldnames src site =
     (case get_top_goodreads_book_ids src 150 of
        None \<Rightarrow> None
      | Some (Inl e) \<Rightarrow> Some ([Header fieldnames, InitDriver, Close], Some e)
      | Some (Inr ids) \<Rightarrow>
          (case process_books py_float fieldnames site ids of
             (evs, Some e) \<Rightarrow> Some ([Header fieldnames, InitDriver] @ evs @ [Close], Some e)
           | (evs, None) \<Rightarrow> Some ([Header fieldnames, InitDriver] @ evs @ [Quit, Close], None)))"

section \<open>Example inputs\<close>

text \<open>
  Concrete detail pages on which the definitions are evaluated.  \<open>example_page\<close> loads
  completely (the "show more" control is missing, which the script tolerates);
  the other pages differ from it in one driver outcome each.  On these pages the
  conversion \<open>float(s)\<close> is taken to accept every text (\<open>Inr\<close>).
\<close>

definition example_page :: detail_page where
  "example_page =
     \<lparr>dp_get = None, dp_title_wait = None, dp_scroll = None, dp_ready_wait = None,
      dp_show_more = Some TimeoutException,
      dp_genres = Inr [''Fiction '', '' '', ''Classics''],
      dp_title = Inr '' Emma '',
      dp_authors = Inr [''Jane Austen'', ''Fiona Stafford''],
      dp_rating = Inr ''4.05'',
      dp_rating_meta = Inr ''12,345 ratings'',
      dp_p_tags = Inr [''First published 1815'', ''352 pages'']\<rparr>"

definition page_turner_page :: detail_page where
  "page_turner_page =
     example_page\<lparr>dp_p_tags := Inr [''A page-turner: 300 pages of suspense'']\<rparr>"

definition unrated_page :: detail_page where
  "unrated_page = example_page\<lparr>dp_rating := Inl NoSuchElementException\<rparr>"

definition timeout_page :: detail_page where
  "timeout_page = example_page\<lparr>dp_title_wait := Some TimeoutException\<rparr>"

definition no_pages_page :: detail_page where
  "no_pages_page = example_page\<lparr>dp_p_tags := Inr [''First published 1815'']\<rparr>"

definition example_fieldnames :: "string list" where
  "example_fieldnames = [''title'', ''author'', ''rating'', ''genres'', ''pages'', ''ratings_count'']"

definition example_site :: "int \<Rightarrow> detail_page" where
  "example_site book_id = (if book_id = 2 then timeout_page else example_page)"

text \<open>
  Listing sources: one whose pages never load, and one whose first page has a link
  element without an \<open>href\<close> attribute after a link that is not a book link.
\<close>

definition failing_listing :: listing_source where
  "failing_listing page = Inl TimeoutException"

definition null_href_listing :: listing_source where
  "null_href_listing page = Inr [Some ''https://www.goodreads.com/list/show/1'', None]"

text \<open>
  A listing of two pages with five book links each, where the second page repeats an
  identifier of the first; every later page has no links.
\<close>

definition two_page_listing :: listing_source where
  "two_page_listing page =
     (if page = 1 then
        Inr [Some ''https://www.goodreads.com/book/show/1.A'',
             Some ''https://www.goodreads.com/book/show/2.B'',
             Some ''https://www.goodreads.com/book/show/3.C'',
             Some ''https://www.goodreads.com/book/show/4.D'',
             Some ''https://www.goodreads.com/book/show/5.E'']
      else if page = 2 then
        Inr [Some ''https://www.goodreads.com/book/show/3.C'',
             Some ''https://www.goodreads.com/book/show/6.F'',
             Some ''https://www.goodreads.com/book/show/7.G'',
             Some ''https://www.goodreads.com/book/show/8.H'',
             Some ''https://www.goodreads.com/book/show/9.I'']
      else Inr [])"

text \<open>
  A listing with fifty book links on every page: page \<open>p\<close> has the identifiers from
  \<open>50 * p\<close> to \<open>50 * p + 49\<close>, written with three digits.
\<close>

definition digit_of :: "nat \<Rightarrow> char" where
  "digit_of d = ''0123456789'' ! d"

definition book_href :: "nat \<Rightarrow> string option" where
  "book_href i =
     Some (''https://www.goodreads.com/book/show/'' @
           [digit_of (i div 100), digit_of (i div 10 mod 10), digit_of (i mod 10)] @ ''.Book'')"

definition catalogue_listing :: listing_source where
  "catalogue_listing page = Inr (map book_href [50 * page ..< 50 * page + 50])"

section \<open>Observations on the listing source\<close>

text \<open>
  The links of the \<open>n\<close> pages from page \<open>p\<close> on, in the order in which the loop
  meets them; whether these pages all load; whether a link is read without an exception
  (it has an address, and \<open>int\<close> accepts the identifier in it); the identifiers a
  sequence of links contributes; and a sequence of identifiers reduced to the first
  occurrence of each.
\<close>

definition page_links :: "listing_page \<Rightarrow> string option list" where
  "page_links pg = (case pg of Inl e \<Rightarrow> [] | Inr links \<Rightarrow> links)"

fun link_stream :: "listing_source \<Rightarrow> nat \<Rightarrow> nat \<Rightarrow> string option list" where
  "link_stream src p 0 = []"
| "link_stream src p (Suc n) = page_links (src p) @ link_stream src (Suc p) n"

fun pages_load :: "listing_source \<Rightarrow> nat \<Rightarrow> nat \<Rightarrow> bool" where
  "pages_load src p 0 = True"
| "pages_load src p (Suc n) = (\<not> isl (src p) \<and> pages_load src (Suc p) n)"

definition link_ok :: "string option \<Rightarrow> bool" where
  "link_ok href = (case link_book_id href of Inl e \<Rightarrow> False | Inr r \<Rightarrow> True)"

definition link_ids :: "string option list \<Rightarrow> int list" where
  "link_ids links =
     List.map_filter (\<lambda>href. case link_book_id href of Inr (Some n) \<Rightarrow> Some n | _ \<Rightarrow> None) links"

definition first_seen :: "int list \<Rightarrow> int list" where
  "first_seen xs = rev (remdups (rev xs))"

section \<open>Observations on the output\<close>

text \<open>
  The key names of a full record, the rows of an event sequence, and the flush
  discipline: every row written is followed at once by a flush.
\<close>

definition book_keys :: "string list" where
  "book_keys = [''title'', ''author'', ''rating'', ''genres'', ''pages'', ''ratings_count'']"

fun rows_of :: "'f event list \<Rightarrow> 'f pyval list list" where
  "rows_of [] = []"
| "rows_of (Row r # evs) = r # rows_of evs"
| "rows_of (ev # evs) = rows_of evs"

fun flush_per_row :: "'f event list \<Rightarrow> bool" where
  "flush_per_row [] = True"
| "flush_per_row (Row r # Flush # evs) = flush_per_row evs"
| "flush_per_row (Row r # evs) = False"
| "flush_per_row (ev # evs) = flush_per_row evs"

section \<open>Evaluation of the example pages\<close>

lemmas str_defs = py_index_def py_isdigit_def is_digit_def py_int_def py_strip_def is_space_def
  int_strip_def is_c_space_def int_max_str_digits_def
  digits_val_def digit_val_def remove_commas_def py_words_def py_lower_def lower_char_def

lemmas extract_defs = extract_fields_def wait_scroll_and_expand_def safe_get_text_def
  safe_get_text_multiple_def pages_val_def

lemma example_page_fields:
  "extract_fields Inr example_page =
     Inr [(''title'', PStr ''Emma''), (''author'', PStr ''Jane Austen, Fiona Stafford''),
          (''rating'', PFloat ''4.05''), (''genres'', PList [''Fiction'', ''Classics'']),
          (''pages'', PInt 352), (''ratings_count'', PInt 12345)]"
  by (simp add: example_page_def extract_defs str_defs)

lemma page_turner_page_fields: "extract_fields Inr page_turner_page = Inl ValueError"
  by (simp add: page_turner_page_def example_page_def extract_defs str_defs)

lemma unrated_page_fields: "extract_fields Inr unrated_page = Inl NoSuchElementException"
  by (simp add: unrated_page_def example_page_def extract_defs str_defs)

lemma timeout_page_fields: "extract_fields Inr timeout_page = Inl TimeoutException"
  by (simp add: timeout_page_def example_page_def extract_defs str_defs)

lemma no_pages_page_fields:
  "extract_fields Inr no_pages_page =
     Inr [(''title'', PStr ''Emma''), (''author'', PStr ''Jane Austen, Fiona Stafford''),
          (''rating'', PFloat ''4.05''), (''genres'', PList [''Fiction'', ''Classics'']),
          (''pages'', PNone), (''ratings_count'', PInt 12345)]"
  by (simp add: no_pages_page_def example_page_def extract_defs str_defs)

lemma failing_listing_raises:
  "get_top_goodreads_book_ids failing_listing 150 = Some (Inl TimeoutException)"
  by (simp add: get_top_goodreads_book_ids_def discover_loop.simps failing_listing_def)

text \<open>One turn of the \<open>while\<close> loop, and its end.\<close>

lemma discover_loop_done:
  "m \<le> int (length acc) \<Longrightarrow> discover_loop src m acc p = Some (Inr acc)"
  by (simp add: discover_loop.simps)

lemma discover_loop_step:
  "int (length acc) < m \<Longrightarrow> src p = Inr links \<Longrightarrow> scan_links m links acc = Inr acc' \<Longrightarrow>
   discover_loop src m acc p = discover_loop src m acc' (Suc p)"
  by (subst discover_loop.simps) simp

lemma catalogue_page_1:
  "scan_links 150 (map book_href [50 * 1 ..< 50 * 1 + 50]) [] = Inr (map int [50 ..< 100])"
  by code_simp

lemma catalogue_page_2:
  "scan_links 150 (map book_href [50 * Suc 1 ..< 50 * Suc 1 + 50]) (map int [50 ..< 100]) =
     Inr (map int [50 ..< 150])"
  by code_simp

lemma catalogue_page_3:
  "scan_links 150 (map book_href [50 * Suc (Suc 1) ..< 50 * Suc (Suc 1) + 50])
     (map int [50 ..< 150]) = Inr (map int [50 ..< 200])"
  by code_simp

lemma catalogue_listing_150:
  "get_top_goodreads_book_ids catalogue_listing 150 = Some (Inr (map int [50 ..< 200]))"
proof -
  have "discover_loop catalogue_listing 150 [] 1 =
          discover_loop catalogue_listing 150 (map int [50 ..< 100]) (Suc 1)"
    by (rule discover_loop_step [OF _ _ catalogue_page_1]) (simp_all add: catalogue_listing_def)
  also have "\<dots> = discover_loop catalogue_listing 150 (map int [50 ..< 150]) (Suc (Suc 1))"
    by (rule discover_loop_step [OF _ _ catalogue_page_2]) (simp_all add: catalogue_listing_def)
  also have "\<dots> = discover_loop catalogue_listing 150 (map int [50 ..< 200]) (Suc (Suc (Suc 1)))"
    by (rule discover_loop_step [OF _ _ catalogue_page_3]) (simp_all add: catalogue_listing_def)
  also have "\<dots> = Some (Inr (map int [50 ..< 200]))"
    by (rule discover_loop_done) simp
  finally show ?thesis by (simp add: get_top_goodreads_book_ids_def)
qed

section \<open>Detail extraction: the error contract and the parsed fields\<close>

lemma get_data_total: "\<exists>info. get_goodreads_book_data py_float pg = Inr info"
  by (simp add: get_goodreads_book_data_def split: sum.splits)

lemma get_data_failed:
  "extract_fields py_float pg = Inl e \<Longrightarrow> get_goodreads_book_data py_float pg = Inr []"
  by (simp add: get_goodreads_book_data_def)

lemma get_data_ok:
  "extract_fields py_float pg = Inr info \<Longrightarrow> get_goodreads_book_data py_float pg = Inr info"
  by (simp add: get_goodreads_book_data_def)

text \<open>What a successful run of the \<open>try\<close> block has computed.\<close>

lemma extract_fields_shape:
  assumes "extract_fields py_float pg = Inr info"
  shows "\<exists>t a r g p c rt cs ps.
      info = [(''title'', PStr t), (''author'', PStr a), (''rating'', PFloat r),
              (''genres'', PList g), (''pages'', pages_val p), (''ratings_count'', PInt c)]
    \<and> safe_get_text (dp_rating_meta pg) = Inr rt
    \<and> py_index (py_split ''ratings'' rt) 0 = Inr cs
    \<and> py_int (remove_commas (py_strip cs)) = Inr c
    \<and> dp_p_tags pg = Inr ps \<and> find_pages ps = Inr p"
  using assms unfolding extract_fields_def
  by (auto split: option.splits sum.splits simp: Let_def)

lemma find_pages_skip:
  "list_all (\<lambda>q. \<not> py_in ''pages'' (py_lower (py_strip q))) pre \<Longrightarrow>
   find_pages (pre @ rest) = find_pages rest"
  by (induction pre) (simp_all add: Let_def)

lemma find_pages_none:
  "list_all (\<lambda>q. \<not> py_in ''pages'' (py_lower (py_strip q))) ps \<Longrightarrow> find_pages ps = Inr None"
  using find_pages_skip [of ps "[]"] by simp

lemma extract_fields_pages_error:
  assumes "dp_p_tags pg = Inr ps" and "find_pages ps = Inl e"
  shows "\<exists>e'. extract_fields py_float pg = Inl e'"
  using assms unfolding extract_fields_def
  by (auto split: option.splits sum.splits simp: Let_def)

text \<open>When every step of the \<open>try\<close> block succeeds, the record is the full one.\<close>

lemma extract_fields_steps:
  assumes "dp_get pg = None"
    and "wait_scroll_and_expand pg = Inr ()"
    and "safe_get_text_multiple (dp_genres pg) = Inr genres"
    and "safe_get_text (dp_title pg) = Inr title"
    and "safe_get_text_multiple (dp_authors pg) = Inr authors"
    and "safe_get_text (dp_rating pg) = Inr rating_str"
    and "py_float rating_str = Inr rating"
    and "safe_get_text (dp_rating_meta pg) = Inr rating_text"
    and "py_index (py_split ''ratings'' rating_text) 0 = Inr count_str"
    and "py_int (remove_commas (py_strip count_str)) = Inr ratings_count"
    and "dp_p_tags pg = Inr p_tags"
    and "find_pages p_tags = Inr pages"
  shows "extract_fields py_float pg =
           Inr [(''title'', PStr title), (''author'', PStr (py_join '', '' authors)),
                (''rating'', PFloat rating), (''genres'', PList genres),
                (''pages'', pages_val pages), (''ratings_count'', PInt ratings_count)]"
  unfolding extract_fields_def using assms by simp

lemma ratings_text_parse:
  "safe_get_text (Inr ''12,345 ratings'') = Inr ''12,345 ratings''"
  "py_index (py_split ''ratings'' ''12,345 ratings'') 0 = Inr ''12,345 ''"
  "py_int (remove_commas (py_strip ''12,345 '')) = Inr 12345"
  by (simp_all add: safe_get_text_def str_defs)

text \<open>
  C2.  For every page state, \<open>get_goodreads_book_data\<close> returns a dictionary and never
  an exception; whenever a step of the \<open>try\<close> block raises, whatever the exception,
  the dictionary returned is the empty one.
\<close>

theorem get_goodreads_book_data_never_raises:
  "(\<exists>info. get_goodreads_book_data py_float pg = Inr info) \<and>
   (\<forall>e. extract_fields py_float pg = Inl e \<longrightarrow> get_goodreads_book_data py_float pg = Inr [])"
  by (simp add: get_goodreads_book_data_def split: sum.splits)

theorem get_goodreads_book_data_never_raises_witness:
  "extract_fields Inr timeout_page = (Inl TimeoutException :: exn + string book_dict) \<and>
   get_goodreads_book_data Inr timeout_page = (Inr [] :: exn + string book_dict)"
  using get_goodreads_book_data_never_raises [of Inr timeout_page] timeout_page_fields
  by simp

text \<open>
  C7.  The claim as stated, that every page whose rating-metadata text is
  \<open>12,345 ratings\<close> gives a record with \<open>ratings_count = 12345\<close>, fails: on
  \<open>page_turner_page\<close> the metadata text is that one, the paragraph scan raises, and
  the record returned is empty.
\<close>

theorem ratings_count_counterexample:
  "dp_rating_meta page_turner_page = Inr ''12,345 ratings'' \<and>
   get_goodreads_book_data Inr page_turner_page = (Inr [] :: exn + string book_dict) \<and>
   dict_get ([] :: string book_dict) ''ratings_count'' \<noteq> PInt 12345"
  by (simp add: get_data_failed [OF page_turner_page_fields] dict_get_def)
     (simp add: page_turner_page_def example_page_def)

text \<open>
  C7, amended.  For every page whose rating-metadata text is \<open>12,345 ratings\<close> and on
  which no other extraction step raises, the record returned is the full record and its
  \<open>ratings_count\<close> is the integer 12345.  When another step raises on such a page, the
  record returned is the empty one, which has no \<open>ratings_count\<close>.
\<close>

theorem ratings_count_parsed:
  "(dp_rating_meta pg = Inr ''12,345 ratings'' \<and>
    dp_get pg = None \<and>
    wait_scroll_and_expand pg = Inr () \<and>
    safe_get_text_multiple (dp_genres pg) = Inr genres \<and>
    safe_get_text (dp_title pg) = Inr title \<and>
    safe_get_text_multiple (dp_authors pg) = Inr authors \<and>
    safe_get_text (dp_rating pg) = Inr rating_str \<and>
    py_float rating_str = Inr rating \<and>
    dp_p_tags pg = Inr p_tags \<and>
    find_pages p_tags = Inr pages
    \<longrightarrow> get_goodreads_book_data py_float pg =
          Inr [(''title'', PStr title), (''author'', PStr (py_join '', '' authors)),
               (''rating'', PFloat rating), (''genres'', PList genres),
               (''pages'', pages_val pages), (''ratings_count'', PInt 12345)]) \<and>
   (dp_rating_meta pg = Inr ''12,345 ratings'' \<and> extract_fields py_float pg = Inl e
    \<longrightarrow> get_goodreads_book_data py_float pg = Inr [] \<and>
        dict_get ([] :: 'f book_dict) ''ratings_count'' = PNone)"
proof (intro conjI impI; (elim conjE)?)
  assume meta: "dp_rating_meta pg = Inr ''12,345 ratings''"
    and steps: "dp_get pg = None" "wait_scroll_and_expand pg = Inr ()"
      "safe_get_text_multiple (dp_genres pg) = Inr genres"
      "safe_get_text (dp_title pg) = Inr title"
      "safe_get_text_multiple (dp_authors pg) = Inr authors"
      "safe_get_text (dp_rating pg) = Inr rating_str"
      "py_float rating_str = Inr rating"
      "dp_p_tags pg = Inr p_tags" "find_pages p_tags = Inr pages"
  from meta have meta_text: "safe_get_text (dp_rating_meta pg) = Inr ''12,345 ratings''"
    by (simp add: ratings_text_parse(1))
  have "extract_fields py_float pg =
          Inr [(''title'', PStr title), (''author'', PStr (py_join '', '' authors)),
               (''rating'', PFloat rating), (''genres'', PList genres),
               (''pages'', pages_val pages), (''ratings_count'', PInt 12345)]"
    using steps(1-7) meta_text ratings_text_parse(2,3) steps(8,9)
    by (rule extract_fields_steps)
  then show "get_goodreads_book_data py_float pg =
          Inr [(''title'', PStr title), (''author'', PStr (py_join '', '' authors)),
               (''rating'', PFloat rating), (''genres'', PList genres),
               (''pages'', pages_val pages), (''ratings_count'', PInt 12345)]"
    by (rule get_data_ok)
next
  assume "extract_fields py_float pg = Inl e"
  then show "get_goodreads_book_data py_float pg = Inr []"
    by (rule get_data_failed)
next
  show "dict_get ([] :: 'f book_dict) ''ratings_count'' = PNone"
    by (simp add: dict_get_def)
qed

theorem ratings_count_parsed_witness:
  "get_goodreads_book_data Inr example_page =
     Inr [(''title'', PStr ''Emma''), (''author'', PStr ''Jane Austen, Fiona Stafford''),
          (''rating'', PFloat ''4.05''), (''genres'', PList [''Fiction'', ''Classics'']),
          (''pages'', PInt 352), (''ratings_count'', PInt 12345)] \<and>
   get_goodreads_book_data Inr page_turner_page = (Inr [] :: exn + string book_dict)"
proof -
  have steps: "dp_rating_meta example_page = Inr ''12,345 ratings''"
    "dp_get example_page = None"
    "wait_scroll_and_expand example_page = Inr ()"
    "safe_get_text_multiple (dp_genres example_page) = Inr [''Fiction'', ''Classics'']"
    "safe_get_text (dp_title example_page) = Inr ''Emma''"
    "safe_get_text_multiple (dp_authors example_page) = Inr [''Jane Austen'', ''Fiona Stafford'']"
    "safe_get_text (dp_rating example_page) = Inr ''4.05''"
    "dp_p_tags example_page = Inr [''First published 1815'', ''352 pages'']"
    "find_pages [''First published 1815'', ''352 pages''] = Inr (Some 352)"
    by (simp_all add: example_page_def extract_defs str_defs)
  have float: "(Inr ''4.05'' :: exn + string) = Inr ''4.05''" by simp
  from ratings_count_parsed [of example_page "[''Fiction'', ''Classics'']" "''Emma''"
      "[''Jane Austen'', ''Fiona Stafford'']" "''4.05''" Inr "''4.05''"
      "[''First published 1815'', ''352 pages'']" "Some 352"] steps float
  have "get_goodreads_book_data Inr example_page =
     Inr [(''title'', PStr ''Emma''),
          (''author'', PStr (py_join '', '' [''Jane Austen'', ''Fiona Stafford''])),
          (''rating'', PFloat ''4.05''), (''genres'', PList [''Fiction'', ''Classics'']),
          (''pages'', pages_val (Some 352)), (''ratings_count'', PInt 12345)]"
    by blast
  then have 1: "get_goodreads_book_data Inr example_page =
     Inr [(''title'', PStr ''Emma''), (''author'', PStr ''Jane Austen, Fiona Stafford''),
          (''rating'', PFloat ''4.05''), (''genres'', PList [''Fiction'', ''Classics'']),
          (''pages'', PInt 352), (''ratings_count'', PInt 12345)]"
    by (simp add: pages_val_def)
  have "dp_rating_meta page_turner_page = Inr ''12,345 ratings''"
    by (simp add: page_turner_page_def example_page_def)
  with ratings_count_parsed [of page_turner_page _ _ _ _ Inr _ _ _ ValueError]
    page_turner_page_fields
  have 2: "get_goodreads_book_data Inr page_turner_page = (Inr [] :: exn + string book_dict)"
    by blast
  from 1 2 show ?thesis by simp
qed

text \<open>
  C9.  When the first paragraph whose stripped, lower-cased text contains \<open>pages\<close>
  starts with a word that \<open>int\<close> rejects, \<open>get_goodreads_book_data\<close> returns the
  empty dictionary: the title, author, rating, genres and ratings count already read
  are dropped with it.
\<close>

theorem bad_pages_token_discards_record:
  assumes "dp_p_tags pg = Inr (pre @ p # post)"
    and "list_all (\<lambda>q. \<not> py_in ''pages'' (py_lower (py_strip q))) pre"
    and "py_in ''pages'' (py_lower (py_strip p))"
    and "py_words (py_lower (py_strip p)) = w # ws"
    and "py_int w = Inl e"
  shows "get_goodreads_book_data py_float pg = Inr []"
proof -
  have "find_pages (p # post) = Inl e"
    using assms(3-5) by (simp add: Let_def py_index_def)
  with find_pages_skip [OF assms(2)] have "find_pages (pre @ p # post) = Inl e"
    by simp
  from extract_fields_pages_error [OF assms(1) this]
  obtain e' where "extract_fields py_float pg = Inl e'" by blast
  then show ?thesis by (rule get_data_failed)
qed

theorem bad_pages_token_discards_record_witness:
  "get_goodreads_book_data Inr page_turner_page = (Inr [] :: exn + string book_dict)"
proof -
  have a: "dp_p_tags page_turner_page = Inr ([] @ ''A page-turner: 300 pages of suspense'' # [])"
    by (simp add: page_turner_page_def example_page_def)
  have b: "py_in ''pages'' (py_lower (py_strip ''A page-turner: 300 pages of suspense''))"
    by (simp add: str_defs)
  have c: "py_words (py_lower (py_strip ''A page-turner: 300 pages of suspense'')) =
             ''a'' # [''page-turner:'', ''300'', ''pages'', ''of'', ''suspense'']"
    by (simp add: str_defs)
  have d: "py_int ''a'' = Inl ValueError"
    by (simp add: str_defs)
  from bad_pages_token_discards_record [OF a _ b c d] show ?thesis by simp
qed

text \<open>
  C8.  The claim as stated, that every page with a paragraph \<open>352 pages\<close> gives a
  record with \<open>pages = 352\<close>, fails: on \<open>unrated_page\<close> the paragraph is there and
  the scan finds 352, but the rating element is missing, so the record returned is empty.
\<close>

theorem pages_field_counterexample:
  "dp_p_tags unrated_page = Inr [''First published 1815'', ''352 pages''] \<and>
   find_pages [''First published 1815'', ''352 pages''] = Inr (Some 352) \<and>
   get_goodreads_book_data Inr unrated_page = (Inr [] :: exn + string book_dict) \<and>
   dict_get ([] :: string book_dict) ''pages'' \<noteq> PInt 352"
  by (simp add: get_data_failed [OF unrated_page_fields] dict_get_def)
     (simp add: unrated_page_def example_page_def str_defs)

text \<open>
  C8, amended.  On every page on which no other extraction step raises: when the first
  paragraph containing the marker \<open>pages\<close> has the text \<open>352 pages\<close>, the record
  returned is the full record with \<open>pages = 352\<close>; when no paragraph contains the
  marker, the scan raises nothing and the record returned is the full record with no
  page count (\<open>None\<close>), so the absence is not an error.  On every page without a
  paragraph containing the marker, whatever the other steps do, the record returned has
  no page count.
\<close>

theorem pages_field_parsed:
  assumes "dp_get pg = None"
    and "wait_scroll_and_expand pg = Inr ()"
    and "safe_get_text_multiple (dp_genres pg) = Inr genres"
    and "safe_get_text (dp_title pg) = Inr title"
    and "safe_get_text_multiple (dp_authors pg) = Inr authors"
    and "safe_get_text (dp_rating pg) = Inr rating_str"
    and "py_float rating_str = Inr rating"
    and "safe_get_text (dp_rating_meta pg) = Inr rating_text"
    and "py_index (py_split ''ratings'' rating_text) 0 = Inr count_str"
    and "py_int (remove_commas (py_strip count_str)) = Inr ratings_count"
    and "dp_p_tags pg = Inr p_tags"
  shows "(p_tags = pre @ ''352 pages'' # post \<and>
          list_all (\<lambda>q. \<not> py_in ''pages'' (py_lower (py_strip q))) pre
          \<longrightarrow> get_goodreads_book_data py_float pg =
                Inr [(''title'', PStr title), (''author'', PStr (py_join '', '' authors)),
                     (''rating'', PFloat rating), (''genres'', PList genres),
                     (''pages'', PInt 352), (''ratings_count'', PInt ratings_count)]) \<and>
         (list_all (\<lambda>q. \<not> py_in ''pages'' (py_lower (py_strip q))) p_tags
          \<longrightarrow> find_pages p_tags = Inr None \<and>
              get_goodreads_book_data py_float pg =
                Inr [(''title'', PStr title), (''author'', PStr (py_join '', '' authors)),
                     (''rating'', PFloat rating), (''genres'', PList genres),
                     (''pages'', PNone), (''ratings_count'', PInt ratings_count)]) \<and>
         (dp_p_tags pg' = Inr ps \<and>
          list_all (\<lambda>q. \<not> py_in ''pages'' (py_lower (py_strip q))) ps
          \<longrightarrow> (\<exists>info. get_goodreads_book_data py_float' pg' = Inr info \<and>
                     dict_get info ''pages'' = PNone))"
proof (intro conjI impI; (elim conjE)?)
  assume tags: "p_tags = pre @ ''352 pages'' # post"
    and pre: "list_all (\<lambda>q. \<not> py_in ''pages'' (py_lower (py_strip q))) pre"
  have "find_pages (''352 pages'' # post) = Inr (Some 352)"
    by (simp add: str_defs)
  with find_pages_skip [OF pre] tags have "find_pages p_tags = Inr (Some 352)"
    by simp
  with assms have "extract_fields py_float pg =
      Inr [(''title'', PStr title), (''author'', PStr (py_join '', '' authors)),
           (''rating'', PFloat rating), (''genres'', PList genres),
           (''pages'', pages_val (Some 352)), (''ratings_count'', PInt ratings_count)]"
    by (rule extract_fields_steps)
  then show "get_goodreads_book_data py_float pg =
      Inr [(''title'', PStr title), (''author'', PStr (py_join '', '' authors)),
           (''rating'', PFloat rating), (''genres'', PList genres),
           (''pages'', PInt 352), (''ratings_count'', PInt ratings_count)]"
    by (simp add: get_data_ok pages_val_def)
next
  assume none: "list_all (\<lambda>q. \<not> py_in ''pages'' (py_lower (py_strip q))) p_tags"
  then show scan: "find_pages p_tags = Inr None"
    by (rule find_pages_none)
  with assms have "extract_fields py_float pg =
      Inr [(''title'', PStr title), (''author'', PStr (py_join '', '' authors)),
           (''rating'', PFloat rating), (''genres'', PList genres),
           (''pages'', pages_val None), (''ratings_count'', PInt ratings_count)]"
    by (rule extract_fields_steps)
  then show "get_goodreads_book_data py_float pg =
      Inr [(''title'', PStr title), (''author'', PStr (py_join '', '' authors)),
           (''rating'', PFloat rating), (''genres'', PList genres),
           (''pages'', PNone), (''ratings_count'', PInt ratings_count)]"
    by (simp add: get_data_ok pages_val_def)
next
  assume tags: "dp_p_tags pg' = Inr ps"
    and none: "list_all (\<lambda>q. \<not> py_in ''pages'' (py_lower (py_strip q))) ps"
  show "\<exists>info. get_goodreads_book_data py_float' pg' = Inr info \<and> dict_get info ''pages'' = PNone"
  proof (cases "extract_fields py_float' pg'")
    case (Inl e)
    then show ?thesis
      by (simp add: get_data_failed dict_get_def)
  next
    case (Inr info)
    from extract_fields_shape [OF Inr] tags find_pages_none [OF none]
    have "dict_get info ''pages'' = PNone"
      by (auto simp: dict_get_def pages_val_def)
    with get_data_ok [OF Inr] show ?thesis by blast
  qed
qed

theorem pages_field_parsed_witness:
  "get_goodreads_book_data Inr example_page =
     Inr [(''title'', PStr ''Emma''), (''author'', PStr ''Jane Austen, Fiona Stafford''),
          (''rating'', PFloat ''4.05''), (''genres'', PList [''Fiction'', ''Classics'']),
          (''pages'', PInt 352), (''ratings_count'', PInt 12345)] \<and>
   find_pages [''First published 1815''] = Inr None \<and>
   get_goodreads_book_data Inr no_pages_page =
     Inr [(''title'', PStr ''Emma''), (''author'', PStr ''Jane Austen, Fiona Stafford''),
          (''rating'', PFloat ''4.05''), (''genres'', PList [''Fiction'', ''Classics'']),
          (''pages'', PNone), (''ratings_count'', PInt 12345)] \<and>
   get_goodreads_book_data Inr (no_pages_page\<lparr>dp_rating := Inl NoSuchElementException\<rparr>) =
     (Inr [] :: exn + string book_dict) \<and>
   dict_get ([] :: string book_dict) ''pages'' = PNone"
proof -
  have ex: "dp_get example_page = None"
    "wait_scroll_and_expand example_page = Inr ()"
    "safe_get_text_multiple (dp_genres example_page) = Inr [''Fiction'', ''Classics'']"
    "safe_get_text (dp_title example_page) = Inr ''Emma''"
    "safe_get_text_multiple (dp_authors example_page) = Inr [''Jane Austen'', ''Fiona Stafford'']"
    "safe_get_text (dp_rating example_page) = Inr ''4.05''"
    "(Inr ''4.05'' :: exn + string) = Inr ''4.05''"
    "safe_get_text (dp_rating_meta example_page) = Inr ''12,345 ratings''"
    "py_index (py_split ''ratings'' ''12,345 ratings'') 0 = Inr ''12,345 ''"
    "py_int (remove_commas (py_strip ''12,345 '')) = Inr 12345"
    "dp_p_tags example_page = Inr [''First published 1815'', ''352 pages'']"
    by (simp_all add: example_page_def extract_defs str_defs)
  have np: "dp_get no_pages_page = None"
    "wait_scroll_and_expand no_pages_page = Inr ()"
    "safe_get_text_multiple (dp_genres no_pages_page) = Inr [''Fiction'', ''Classics'']"
    "safe_get_text (dp_title no_pages_page) = Inr ''Emma''"
    "safe_get_text_multiple (dp_authors no_pages_page) = Inr [''Jane Austen'', ''Fiona Stafford'']"
    "safe_get_text (dp_rating no_pages_page) = Inr ''4.05''"
    "(Inr ''4.05'' :: exn + string) = Inr ''4.05''"
    "safe_get_text (dp_rating_meta no_pages_page) = Inr ''12,345 ratings''"
    "py_index (py_split ''ratings'' ''12,345 ratings'') 0 = Inr ''12,345 ''"
    "py_int (remove_commas (py_strip ''12,345 '')) = Inr 12345"
    "dp_p_tags no_pages_page = Inr [''First published 1815'']"
    by (simp_all add: no_pages_page_def example_page_def extract_defs str_defs)
  have split: "[''First published 1815'', ''352 pages''] = [''First published 1815''] @ ''352 pages'' # []"
    by simp
  have clean: "list_all (\<lambda>q. \<not> py_in ''pages'' (py_lower (py_strip q))) [''First published 1815'']"
    by (simp add: str_defs)
  have bad: "dp_p_tags (no_pages_page\<lparr>dp_rating := Inl NoSuchElementException\<rparr>) =
      Inr [''First published 1815'']"
    by (simp add: no_pages_page_def example_page_def)
  have bad_fields: "extract_fields Inr (no_pages_page\<lparr>dp_rating := Inl NoSuchElementException\<rparr>) =
      (Inl NoSuchElementException :: exn + string book_dict)"
    by (simp add: no_pages_page_def example_page_def extract_defs str_defs)
  from pages_field_parsed [where py_float = "Inr :: string \<Rightarrow> exn + string" and pre = "[''First published 1815'']"
      and post = "[]", OF ex] split clean
  have 1: "get_goodreads_book_data Inr example_page =
     Inr [(''title'', PStr ''Emma''),
          (''author'', PStr (py_join '', '' [''Jane Austen'', ''Fiona Stafford''])),
          (''rating'', PFloat ''4.05''), (''genres'', PList [''Fiction'', ''Classics'']),
          (''pages'', PInt 352), (''ratings_count'', PInt 12345)]"
    by blast
  from pages_field_parsed [where py_float = "Inr :: string \<Rightarrow> exn + string"
      and pg' = "no_pages_page\<lparr>dp_rating := Inl NoSuchElementException\<rparr>"
      and ps = "[''First published 1815'']" and py_float' = "Inr :: string \<Rightarrow> exn + string", OF np]
    clean bad
  have 2: "find_pages [''First published 1815''] = Inr None"
    and 3: "get_goodreads_book_data Inr no_pages_page =
     Inr [(''title'', PStr ''Emma''),
          (''author'', PStr (py_join '', '' [''Jane Austen'', ''Fiona Stafford''])),
          (''rating'', PFloat ''4.05''), (''genres'', PList [''Fiction'', ''Classics'']),
          (''pages'', PNone), (''ratings_count'', PInt 12345)]"
    and 4: "\<exists>info :: string book_dict.
        get_goodreads_book_data Inr (no_pages_page\<lparr>dp_rating := Inl NoSuchElementException\<rparr>) = Inr info \<and>
        dict_get info ''pages'' = PNone"
    by blast+
  from 1 2 3 4 get_data_failed [OF bad_fields] show ?thesis
    by (simp add: dict_get_def)
qed

section \<open>The pipeline loop\<close>

lemma flatten_genres_keys: "map fst (flatten_genres info) = map fst info"
proof (cases "dict_get info ''genres''")
  case (PList gs)
  then have "map_of info ''genres'' = Some (PList gs)"
    by (auto simp: dict_get_def split: option.splits)
  then have "''genres'' \<in> set (map fst info)"
    by (metis map_of_eq_None_iff option.distinct(1) set_map)
  with PList show ?thesis
    by (simp add: flatten_genres_def update_keys)
qed (simp_all add: flatten_genres_def)

lemma get_data_keys:
  "get_goodreads_book_data py_float pg = Inr info \<Longrightarrow> set (map fst info) \<subseteq> set book_keys"
  unfolding get_goodreads_book_data_def
  by (auto split: sum.splits if_splits dest!: extract_fields_shape simp: book_keys_def)

lemma writerow_empty: "writerow fieldnames [] = Inr (replicate (length fieldnames) (PStr []))"
  by (simp add: writerow_def map_replicate_const)

lemma book_row_failed:
  "extract_fields py_float pg = Inl e \<Longrightarrow>
   book_row py_float fieldnames pg = Inr (replicate (length fieldnames) (PStr []))"
  by (simp add: book_row_def get_data_failed flatten_genres_def dict_get_def writerow_empty)

lemma book_row_total:
  assumes "set book_keys \<subseteq> set fieldnames"
  shows "\<exists>row. book_row py_float fieldnames pg = Inr row"
proof -
  obtain info where info: "get_goodreads_book_data py_float pg = Inr info"
    using get_data_total by blast
  from get_data_keys [OF info] assms have "set (map fst (flatten_genres info)) \<subseteq> set fieldnames"
    unfolding flatten_genres_keys by (rule subset_trans)
  then have "list_all (\<lambda>k. k \<in> set fieldnames) (map fst (flatten_genres info))"
    by (auto simp: list_all_iff)
  with info show ?thesis
    by (simp add: book_row_def writerow_def)
qed

text \<open>
  C4.  The field names come from the configuration file, which is not part of the script;
  they are assumed to contain the six keys of a record.  Then, for every sequence of
  identifiers, the loop runs to its end without an exception and writes exactly one row
  per identifier, in the order of the identifiers, each followed by a flush; the row of
  an identifier whose extraction failed is the row of empty fields.
\<close>

theorem one_row_per_identifier:
  assumes "set book_keys \<subseteq> set fieldnames"
  shows "\<exists>rows. map (\<lambda>book_id. book_row py_float fieldnames (site book_id)) ids = map Inr rows
           \<and> process_books py_float fieldnames site ids = (concat (map (\<lambda>row. [Row row, Flush]) rows), None)
           \<and> rows_of (fst (process_books py_float fieldnames site ids)) = rows
           \<and> (\<forall>book_id e. extract_fields py_float (site book_id) = Inl e \<longrightarrow>
                 book_row py_float fieldnames (site book_id) = Inr (replicate (length fieldnames) (PStr [])))"
proof (induction ids)
  case Nil
  show ?case by (simp add: book_row_failed)
next
  case (Cons book_id ids)
  then obtain rows where rows:
    "map (\<lambda>book_id. book_row py_float fieldnames (site book_id)) ids = map Inr rows"
    "process_books py_float fieldnames site ids = (concat (map (\<lambda>row. [Row row, Flush]) rows), None)"
    "rows_of (fst (process_books py_float fieldnames site ids)) = rows"
    by blast
  obtain row where row: "book_row py_float fieldnames (site book_id) = Inr row"
    using book_row_total [OF assms] by blast
  have "map (\<lambda>book_id. book_row py_float fieldnames (site book_id)) (book_id # ids) = map Inr (row # rows)"
    using rows(1) row by simp
  moreover have "process_books py_float fieldnames site (book_id # ids) =
      (concat (map (\<lambda>row. [Row row, Flush]) (row # rows)), None)"
    using rows(2) row by simp
  moreover have "rows_of (fst (process_books py_float fieldnames site (book_id # ids))) = row # rows"
    using rows(2,3) row by simp
  ultimately show ?case
    using book_row_failed by blast
qed

theorem one_row_per_identifier_witness:
  "set book_keys \<subseteq> set example_fieldnames \<and>
   process_books Inr example_fieldnames example_site [1, 2, 3] =
     ([Row [PStr ''Emma'', PStr ''Jane Austen, Fiona Stafford'', PFloat ''4.05'',
            PStr ''Fiction, Classics'', PInt 352, PInt 12345], Flush,
       Row [PStr [], PStr [], PStr [], PStr [], PStr [], PStr []], Flush,
       Row [PStr ''Emma'', PStr ''Jane Austen, Fiona Stafford'', PFloat ''4.05'',
            PStr ''Fiction, Classics'', PInt 352, PInt 12345], Flush], None)"
proof -
  have h: "set book_keys \<subseteq> set example_fieldnames"
    by (simp add: book_keys_def example_fieldnames_def)
  have ok: "book_row Inr example_fieldnames example_page =
      Inr [PStr ''Emma'', PStr ''Jane Austen, Fiona Stafford'', PFloat ''4.05'',
            PStr ''Fiction, Classics'', PInt 352, PInt 12345]"
    by (simp add: book_row_def get_data_ok [OF example_page_fields] flatten_genres_def
          dict_get_def writerow_def example_fieldnames_def)
  have bad: "book_row Inr example_fieldnames timeout_page =
      (Inr [PStr [], PStr [], PStr [], PStr [], PStr [], PStr []] :: exn + string pyval list)"
    by (simp add: book_row_def get_data_failed [OF timeout_page_fields] flatten_genres_def
          dict_get_def writerow_def example_fieldnames_def)
  from one_row_per_identifier [OF h, of Inr example_site "[1, 2, 3]"] ok bad
  show ?thesis using h by (auto simp: example_site_def)
qed

lemma process_books_completes:
  assumes "set book_keys \<subseteq> set fieldnames"
  shows "snd (process_books py_float fieldnames site ids) = None"
proof (induction ids)
  case Nil
  show ?case by simp
next
  case (Cons book_id ids)
  obtain row where "book_row py_float fieldnames (site book_id) = Inr row"
    using book_row_total [OF assms] by blast
  with Cons show ?case
    by (cases "process_books py_float fieldnames site ids") simp
qed

lemma main_completes:
  assumes "get_top_goodreads_book_ids src 150 = Some (Inr ids)"
    and "set book_keys \<subseteq> set fieldnames"
  shows "main py_float fieldnames src site =
           Some ([Header fieldnames, InitDriver] @
                 fst (process_books py_float fieldnames site ids) @ [Quit, Close], None)"
proof -
  obtain evs r where p: "process_books py_float fieldnames site ids = (evs, r)"
    by (cases "process_books py_float fieldnames site ids")
  with process_books_completes [OF assms(2), of py_float site ids] have "r = None"
    by simp
  with p assms(1) show ?thesis
    by (simp add: main_def)
qed

text \<open>
  A complete run: the discovery finds 150 identifiers on three pages, every identifier
  gets its row, and the run ends with \<open>driver.quit()\<close> and the closing of the file.
\<close>

lemma catalogue_run:
  "main Inr example_fieldnames catalogue_listing example_site =
     Some ([Header example_fieldnames, InitDriver] @
           fst (process_books Inr example_fieldnames example_site (map int [50 ..< 200])) @
           [Quit, Close :: string event], None)"
proof -
  have "set book_keys \<subseteq> set example_fieldnames"
    by (simp add: book_keys_def example_fieldnames_def)
  with catalogue_listing_150 show ?thesis
    by (rule main_completes)
qed

lemma process_books_flushed: "flush_per_row (fst (process_books py_float fieldnames site ids))"
  by (induction ids) (auto split: sum.splits prod.splits)

lemma flush_per_row_append: "flush_per_row xs \<Longrightarrow> flush_per_row ys \<Longrightarrow> flush_per_row (xs @ ys)"
  by (induction xs rule: flush_per_row.induct) auto

lemma main_trace_cases:
  assumes "main py_float fieldnames src site = Some (evs, r)"
  shows "evs = [Header fieldnames, InitDriver, Close] \<or>
         (\<exists>ids. evs = [Header fieldnames, InitDriver] @ fst (process_books py_float fieldnames site ids) @ [Close]) \<or>
         (\<exists>ids. evs = [Header fieldnames, InitDriver] @ fst (process_books py_float fieldnames site ids) @ [Quit, Close])"
proof (cases "get_top_goodreads_book_ids src 150")
  case None
  with assms show ?thesis by (simp add: main_def)
next
  case (Some res)
  show ?thesis
  proof (cases res)
    case (Inl e)
    with Some assms show ?thesis by (simp add: main_def)
  next
    case (Inr ids)
    obtain evs' r' where p: "process_books py_float fieldnames site ids = (evs', r')"
      by (cases "process_books py_float fieldnames site ids")
    with Some Inr assms have
      "evs = [Header fieldnames, InitDriver] @ evs' @ [Close] \<or>
       evs = [Header fieldnames, InitDriver] @ evs' @ [Quit, Close]"
      by (cases r') (simp_all add: main_def)
    moreover from p have "evs' = fst (process_books py_float fieldnames site ids)"
      by simp
    ultimately show ?thesis by blast
  qed
qed

text \<open>
  C5.  In the events of the loop, for every sequence of identifiers, and in the events of
  every run of \<open>main\<close> that ends, each row written is followed at once by a flush,
  before anything else happens to the file.
\<close>

theorem flush_after_each_row:
  "flush_per_row (fst (process_books py_float fieldnames site ids)) \<and>
   (\<forall>evs r. main py_float fieldnames src site = Some (evs, r) \<longrightarrow> flush_per_row evs)"
proof -
  have "flush_per_row evs" if "main py_float fieldnames src site = Some (evs, r)" for evs r
  proof -
    have *: "flush_per_row ([Header fieldnames, InitDriver] @ fst (process_books py_float fieldnames site ids) @ tl)"
      if "flush_per_row tl" for ids tl
      using process_books_flushed [of py_float fieldnames site ids] that
      by (simp add: flush_per_row_append)
    from main_trace_cases [OF that] * [of "[Close]"] * [of "[Quit, Close]"]
    show ?thesis by auto
  qed
  with process_books_flushed show ?thesis by blast
qed

theorem flush_after_each_row_witness:
  "flush_per_row (fst (process_books Inr example_fieldnames example_site [1, 2, 3])) \<and>
   main Inr example_fieldnames catalogue_listing example_site =
     Some ([Header example_fieldnames, InitDriver] @
           fst (process_books Inr example_fieldnames example_site (map int [50 ..< 200])) @
           [Quit, Close :: string event], None) \<and>
   flush_per_row ([Header example_fieldnames, InitDriver] @
           fst (process_books Inr example_fieldnames example_site (map int [50 ..< 200])) @
           [Quit, Close :: string event])"
  using flush_after_each_row [of Inr example_fieldnames example_site "[1, 2, 3]" catalogue_listing]
    catalogue_run
  by blast

section \<open>Failures of the discovery stage\<close>

text \<open>
  C3.  The property in question is that \<open>driver.quit()\<close> is executed on every way
  out of \<open>main\<close>.  A complete run ends with it (\<open>catalogue_run\<close>).  On a run whose
  first listing page fails to load, the exception leaves \<open>main\<close>, the file is closed
  by the \<open>with\<close> block, and \<open>driver.quit()\<close> is not executed.
\<close>

theorem discovery_failure_skips_quit:
  "main Inr example_fieldnames failing_listing example_site =
     Some ([Header example_fieldnames, InitDriver, Close :: string event], Some TimeoutException) \<and>
   (Quit :: string event) \<notin> set [Header example_fieldnames, InitDriver, Close]"
  by (simp add: main_def failing_listing_raises)

lemma scan_links_skip:
  "list_all (\<lambda>h. link_book_id h = Inr None) pre \<Longrightarrow>
   scan_links max_books (pre @ rest) book_ids = scan_links max_books rest book_ids"
  by (induction pre) simp_all

text \<open>
  C10.  When the first listing page has a link element without an \<open>href\<close> attribute,
  preceded only by links that are skipped, the substring test is applied to \<open>None\<close>:
  for every positive target the discovery raises TypeError, and the run of \<open>main\<close>
  ends with that exception before any row is written.
\<close>

theorem null_href_aborts_run:
  assumes "src 1 = Inr (pre @ None # post)"
    and "list_all (\<lambda>h. link_book_id h = Inr None) pre"
  shows "(0 < max_books \<longrightarrow> get_top_goodreads_book_ids src max_books = Some (Inl TypeError)) \<and>
         main py_float fieldnames src site = Some ([Header fieldnames, InitDriver, Close], Some TypeError)"
proof -
  have scan: "scan_links m (pre @ None # post) [] = Inl TypeError" for m
    using scan_links_skip [OF assms(2)] by (simp add: link_book_id_def)
  have top: "get_top_goodreads_book_ids src m = Some (Inl TypeError)" if "0 < m" for m
    using that assms(1) scan by (simp add: get_top_goodreads_book_ids_def discover_loop.simps)
  from top [of 150] have "main py_float fieldnames src site = Some ([Header fieldnames, InitDriver, Close], Some TypeError)"
    by (simp add: main_def)
  with top show ?thesis by blast
qed

theorem null_href_aborts_run_witness:
  "get_top_goodreads_book_ids null_href_listing 150 = Some (Inl TypeError) \<and>
   main Inr example_fieldnames null_href_listing example_site =
     Some ([Header example_fieldnames, InitDriver, Close :: string event], Some TypeError)"
proof -
  have a: "null_href_listing 1 = Inr ([Some ''https://www.goodreads.com/list/show/1''] @ None # [])"
    by (simp add: null_href_listing_def)
  have b: "list_all (\<lambda>h. link_book_id h = Inr None) [Some ''https://www.goodreads.com/list/show/1'']"
    by (simp add: link_book_id_def)
  from null_href_aborts_run [of null_href_listing "[Some ''https://www.goodreads.com/list/show/1'']" "[]", OF a b, of 150 Inr example_fieldnames example_site]
  show ?thesis by simp
qed

section \<open>Identifier discovery: order, bound and termination\<close>


subsection \<open>First occurrences\<close>

lemma first_seen_snoc:
  "first_seen (xs @ [x]) = (if x \<in> set xs then first_seen xs else first_seen xs @ [x])"
  by (simp add: first_seen_def)

lemma set_first_seen: "set (first_seen xs) = set xs"
  by (simp add: first_seen_def)

lemma distinct_first_seen: "distinct (first_seen xs)"
  by (simp add: first_seen_def)

lemma first_seen_distinct: "distinct xs \<Longrightarrow> first_seen xs = xs"
  by (simp add: first_seen_def distinct_remdups_id)


lemma first_seen_seen: "n \<in> set acc \<Longrightarrow> first_seen (acc @ n # ids) = first_seen (acc @ ids)"
proof (induction ids rule: rev_induct)
  case Nil
  then show ?case using first_seen_snoc [of acc n] by simp
next
  case (snoc y ys)
  have "first_seen (acc @ n # ys @ [y]) = first_seen ((acc @ n # ys) @ [y])" by simp
  also have "\<dots> = (if y \<in> set (acc @ n # ys) then first_seen (acc @ n # ys) else first_seen (acc @ n # ys) @ [y])"
    by (rule first_seen_snoc)
  also have "\<dots> = (if y \<in> set (acc @ ys) then first_seen (acc @ ys) else first_seen (acc @ ys) @ [y])"
    using snoc by auto
  also have "\<dots> = first_seen ((acc @ ys) @ [y])"
    by (rule first_seen_snoc [symmetric])
  finally show ?case by simp
qed

lemma first_seen_idem_append: "first_seen (first_seen xs @ ys) = first_seen (xs @ ys)"
proof (induction ys rule: rev_induct)
  case Nil
  then show ?case by (simp add: first_seen_distinct distinct_first_seen)
next
  case (snoc y ys)
  have "first_seen (first_seen xs @ ys @ [y]) = first_seen ((first_seen xs @ ys) @ [y])" by simp
  also have "\<dots> = (if y \<in> set (first_seen xs @ ys) then first_seen (first_seen xs @ ys)
                     else first_seen (first_seen xs @ ys) @ [y])"
    by (rule first_seen_snoc)
  also have "\<dots> = (if y \<in> set (xs @ ys) then first_seen (xs @ ys) else first_seen (xs @ ys) @ [y])"
    using snoc by (simp add: set_first_seen)
  also have "\<dots> = first_seen ((xs @ ys) @ [y])"
    by (rule first_seen_snoc [symmetric])
  finally show ?case by simp
qed

subsection \<open>Links that are read without an exception\<close>

lemma link_ok_Inr: "link_book_id href = Inr r \<Longrightarrow> link_ok href"
  by (simp add: link_ok_def)


lemma null_href_not_ok: "\<not> link_ok None"
  by (simp add: link_ok_def link_book_id_def)

subsection \<open>The identifiers of a sequence of links\<close>

lemma link_ids_Nil: "link_ids [] = []"
  by (simp add: link_ids_def map_filter_simps)

lemma link_ids_Cons:
  "link_ids (href # links) =
     (case link_book_id href of Inr (Some n) \<Rightarrow> n # link_ids links | _ \<Rightarrow> link_ids links)"
  by (simp add: link_ids_def map_filter_simps split: sum.splits option.splits)

lemma link_ids_append: "link_ids (xs @ ys) = link_ids xs @ link_ids ys"
  by (simp add: link_ids_def map_filter_def)


subsection \<open>The scan of one page\<close>


lemma scan_links_sound:
  assumes "scan_links m links acc = Inr acc'" and "distinct acc" and "int (length acc) < m"
  shows "\<exists>k\<le>length links. list_all link_ok (take k links) \<and>
           acc' = first_seen (acc @ link_ids (take k links)) \<and>
           (k = length links \<or> m \<le> int (length acc')) \<and>
           int (length acc') \<le> m \<and> distinct acc'"
  using assms
proof (induction links arbitrary: acc)
  case Nil
  then show ?case by (simp add: link_ids_Nil first_seen_distinct)
next
  case (Cons href links)
  from Cons.prems(1) obtain r where r: "link_book_id href = Inr r"
    by (cases "link_book_id href") simp_all
  then have href: "link_ok href" by (rule link_ok_Inr)
  have step: ?case
    if rec: "scan_links m links acc0 = Inr acc'" and d: "distinct acc0" and l: "int (length acc0) < m"
      and eq: "\<And>k. first_seen (acc0 @ link_ids (take k links)) = first_seen (acc @ link_ids (href # take k links))"
    for acc0
  proof -
    from Cons.IH [OF rec d l] obtain k where k: "k \<le> length links" "list_all link_ok (take k links)"
      "acc' = first_seen (acc0 @ link_ids (take k links))"
      "k = length links \<or> m \<le> int (length acc')" "int (length acc') \<le> m" "distinct acc'"
      by blast
    have "Suc k \<le> length (href # links)" using k(1) by simp
    moreover have "list_all link_ok (take (Suc k) (href # links))" using k(2) href by simp
    moreover have "acc' = first_seen (acc @ link_ids (take (Suc k) (href # links)))"
      using k(3) eq by simp
    moreover have "Suc k = length (href # links) \<or> m \<le> int (length acc')" using k(4) by auto
    ultimately show ?thesis using k(5,6) by blast
  qed
  show ?case
  proof (cases r)
    case None
    with r Cons.prems show ?thesis
      by (intro step [of acc]) (simp_all add: link_ids_Cons)
  next
    case (Some n)
    show ?thesis
    proof (cases "n \<in> set acc")
      case True
      with r Some Cons.prems show ?thesis
        by (intro step [of acc]) (simp_all add: link_ids_Cons first_seen_seen)
    next
      case False
      show ?thesis
      proof (cases "m \<le> int (length (acc @ [n]))")
        case True
        with r Some False Cons.prems have acc': "acc' = acc @ [n]" by (simp add: Let_def)
        have "(1::nat) \<le> length (href # links)" by simp
        moreover have "list_all link_ok (take 1 (href # links))" using href by auto
        moreover have "acc' = first_seen (acc @ link_ids (take 1 (href # links)))"
          using acc' r Some False Cons.prems(2)
          by (simp add: link_ids_Cons link_ids_Nil first_seen_distinct)
        moreover have "m \<le> int (length acc')" using True acc' by simp
        moreover have "int (length acc') \<le> m" using acc' Cons.prems(3) by simp
        moreover have "distinct acc'" using acc' False Cons.prems(2) by simp
        ultimately show ?thesis by blast
      next
        case big: False
        with r Some False Cons.prems show ?thesis
          by (intro step [of "acc @ [n]"]) (simp_all add: link_ids_Cons Let_def)
      qed
    qed
  qed
qed



subsection \<open>The loop over the pages\<close>

lemma discover_loop_sound:
  assumes "discover_loop src m acc p = Some res"
  shows "\<forall>ids. res = Inr ids \<longrightarrow> distinct acc \<longrightarrow>
           (if m \<le> int (length acc) then ids = acc
            else \<exists>n k. pages_load src p n \<and> list_all link_ok (take k (link_stream src p n)) \<and>
                   ids = first_seen (acc @ link_ids (take k (link_stream src p n))) \<and>
                   int (length ids) = m)"
  using assms
proof (induction rule: discover_loop.raw_induct [rotated 1, consumes 1, case_names step])
  case (step f src m acc p res)
  show ?case
  proof (intro allI impI)
    fix ids
    assume res: "res = Inr ids" and d: "distinct acc"
    show "if m \<le> int (length acc) then ids = acc
          else \<exists>n k. pages_load src p n \<and> list_all link_ok (take k (link_stream src p n)) \<and>
                 ids = first_seen (acc @ link_ids (take k (link_stream src p n))) \<and>
                 int (length ids) = m"
    proof (cases "m \<le> int (length acc)")
      case True
      with step(2) res show ?thesis by simp
    next
      case False
      then have l: "int (length acc) < m" by simp
      from step(2) l res obtain links where links: "src p = Inr links"
        by (cases "src p") simp_all
      from step(2) l res links obtain acc' where acc': "scan_links m links acc = Inr acc'"
        by (cases "scan_links m links acc") simp_all
      from step(2) l res links acc' have call: "f src m acc' (p + 1) = Some (Inr ids)"
        by simp
      from scan_links_sound [OF acc' d l] obtain k0 where k0: "k0 \<le> length links"
        "list_all link_ok (take k0 links)" "acc' = first_seen (acc @ link_ids (take k0 links))"
        "k0 = length links \<or> m \<le> int (length acc')" "int (length acc') \<le> m" "distinct acc'"
        by blast
      from step(1) [OF call] k0(6) have ih:
        "if m \<le> int (length acc') then ids = acc'
         else \<exists>n k. pages_load src (p + 1) n \<and> list_all link_ok (take k (link_stream src (p + 1) n)) \<and>
                ids = first_seen (acc' @ link_ids (take k (link_stream src (p + 1) n))) \<and>
                int (length ids) = m"
        by blast
      have "\<exists>n k. pages_load src p n \<and> list_all link_ok (take k (link_stream src p n)) \<and>
                 ids = first_seen (acc @ link_ids (take k (link_stream src p n))) \<and>
                 int (length ids) = m"
      proof (cases "m \<le> int (length acc')")
        case True
        with ih have ids: "ids = acc'" by simp
        have "pages_load src p (Suc 0)" using links by simp
        moreover have "take k0 (link_stream src p (Suc 0)) = take k0 links"
          using links by (simp add: page_links_def)
        moreover have "int (length ids) = m" using ids True k0(5) by simp
        ultimately show ?thesis using k0(2,3) ids by metis
      next
        case False
        with k0(4) have full: "k0 = length links" by simp
        from False ih obtain n k where nk: "pages_load src (Suc p) n"
          "list_all link_ok (take k (link_stream src (Suc p) n))"
          "ids = first_seen (acc' @ link_ids (take k (link_stream src (Suc p) n)))"
          "int (length ids) = m"
          by auto
        have t: "take (length links + k) (link_stream src p (Suc n)) =
                   links @ take k (link_stream src (Suc p) n)"
          using links by (simp add: page_links_def)
        have "pages_load src p (Suc n)" using links nk(1) by simp
        moreover have "list_all link_ok (take (length links + k) (link_stream src p (Suc n)))"
          unfolding t using k0(2) full nk(2) by simp
        moreover have "ids = first_seen (acc @ link_ids (take (length links + k) (link_stream src p (Suc n))))"
          unfolding t using nk(3) k0(3) full
          by (simp add: first_seen_idem_append link_ids_append)
        ultimately show ?thesis using nk(4) by blast
      qed
      with False show ?thesis by simp
    qed
  qed
qed




lemma two_page_listing_7:
  "get_top_goodreads_book_ids two_page_listing 7 = Some (Inr [1, 2, 3, 4, 5, 6, 7])"
  by (simp add: get_top_goodreads_book_ids_def discover_loop.simps two_page_listing_def
        link_book_id_def str_defs)







text \<open>
  C1.  For every call that returns, with a target count (a number that is not negative),
  the returned sequence has length at most the target, its elements are pairwise
  distinct, and it is the sequence of the first occurrences, in order, of the
  identifiers of an initial part of the links of the pages visited.
\<close>

theorem discovered_ids:
  assumes "get_top_goodreads_book_ids src max_books = Some (Inr ids)"
    and "0 \<le> max_books"
  shows "int (length ids) \<le> max_books \<and> distinct ids \<and>
         (\<exists>n k. pages_load src 1 n \<and> list_all link_ok (take k (link_stream src 1 n)) \<and>
                ids = first_seen (link_ids (take k (link_stream src 1 n))))"
proof -
  from assms(1) have loop: "discover_loop src max_books [] 1 = Some (Inr ids)"
    by (simp add: get_top_goodreads_book_ids_def)
  show ?thesis
  proof (cases "max_books \<le> 0")
    case True
    with discover_loop_sound [OF loop] have ids: "ids = []" by simp
    have "pages_load src 1 0 \<and> list_all link_ok (take 0 (link_stream src 1 0)) \<and>
        ids = first_seen (link_ids (take 0 (link_stream src 1 0)))"
      by (simp add: ids link_ids_Nil first_seen_def)
    then have "\<exists>n k. pages_load src 1 n \<and> list_all link_ok (take k (link_stream src 1 n)) \<and>
        ids = first_seen (link_ids (take k (link_stream src 1 n)))"
      by blast
    with ids assms(2) show ?thesis by simp
  next
    case False
    with discover_loop_sound [OF loop]
    obtain n k where nk: "pages_load src 1 n" "list_all link_ok (take k (link_stream src 1 n))"
      "ids = first_seen (link_ids (take k (link_stream src 1 n)))" "int (length ids) = max_books"
      by auto
    from nk(3) have "distinct ids" by (simp add: distinct_first_seen)
    moreover from nk(4) have "int (length ids) \<le> max_books" by simp
    moreover from nk(1-3) have "\<exists>n k. pages_load src 1 n \<and> list_all link_ok (take k (link_stream src 1 n)) \<and>
        ids = first_seen (link_ids (take k (link_stream src 1 n)))"
      by blast
    ultimately show ?thesis by simp
  qed
qed

theorem discovered_ids_witness:
  "get_top_goodreads_book_ids two_page_listing 7 = Some (Inr [1, 2, 3, 4, 5, 6, 7]) \<and>
   int (length [1, 2, 3, 4, 5, 6, 7 :: int]) \<le> 7 \<and> distinct [1, 2, 3, 4, 5, 6, 7 :: int]"
proof -
  have "(0::int) \<le> 7" by simp
  from discovered_ids [OF two_page_listing_7 this] two_page_listing_7 show ?thesis by simp
qed

end
